theory Spec2Isabelle
  imports Complex_Main "HOL-Library.Product_Lexorder" "HOL-Library.List_Lexorder" "HOL-Library.Char_ord"
begin

section \<open>Numbers\<close>

text \<open>
  The telemetry values of the program are Python floats. They are embedded as
  \<^typ>\<open>real\<close>: comparisons, sums and differences are the exact ones, and the
  rounding of a float operation is not part of the model.

  \<^verbatim>\<open>round6 = partial(round, ndigits=6)\<close> rounds to six decimals, a tie going to
  the even neighbour.
\<close>

definition round_half_even :: "real \<Rightarrow> int" where
  "round_half_even x =
     (let f = \<lfloor>x\<rfloor>; d = x - of_int f
      in if d < 1 / 2 then f
         else if 1 / 2 < d then f + 1
         else if even f then f else f + 1)"

definition round6 :: "real \<Rightarrow> real" where
  "round6 x = of_int (round_half_even (x * 1000000)) / 1000000"

section \<open>Fuel module: the tick of \<open>calc_data\<close>\<close>

text \<open>
  One row of a consumption curve is a tuple of two or three floats
  (distance, used amount and, on the terminal row, the lap time); it is embedded as a
  list of reals.
\<close>

type_synonym row = "real list"

definition DELTA_ZERO :: row where
  "DELTA_ZERO = [0, 0]"

definition DELTA_DEFAULT :: "row list" where
  "DELTA_DEFAULT = [DELTA_ZERO]"

text \<open>
  What one pass of the \<^verbatim>\<open>while True\<close> loop reads from the simulator. Every getter
  is read once per tick in the model (\<^verbatim>\<open>api.read.timing.elapsed()\<close>, which the source
  calls at the lap boundary and again in the validation block, gives the same value to both).
\<close>

record telemetry =
  tank_capacity :: real
  fuel :: real
  timing_start :: real
  current_laptime :: real
  lap_distance :: real
  in_pits :: bool
  elapsed :: real
  last_laptime :: real
  lap_time_pace :: real

text \<open>
  The local variables of the generator that live across \<^verbatim>\<open>yield\<close>, and the fields
  of \<^verbatim>\<open>output\<close> that lines 262-267 copy from them. Lines 205-260 (the delta and the
  strategy numbers) call functions of the \<^verbatim>\<open>calculation\<close> module and write only
  variables that lines 133-203 never read; they are not part of the model.
\<close>

record fuel_state =
  recording :: bool
  delayed_save :: bool
  validating :: real
  pit_lap :: bool
  delta_list_last :: "row list"
  used_last :: real
  laptime_last :: real
  delta_list_curr :: "row list"
  delta_list_temp :: "row list"
  amount_start :: real
  amount_last :: real
  used_curr :: real
  used_last_raw :: real
  last_lap_stime :: real
  pos_last :: real
  pos_synced :: bool
  out_capacity :: real
  out_amountStart :: real
  out_amountCurrent :: real
  out_lastLapConsumption :: real

text \<open>\<^verbatim>\<open>telemetry_fuel\<close>: capacity, clamped from below by 1, and the current amount.\<close>

definition telemetry_fuel :: "telemetry \<Rightarrow> real \<times> real" where
  "telemetry_fuel api = (max (tank_capacity api) 1, fuel api)"

text \<open>The state before the first \<^verbatim>\<open>yield\<close>, from what \<^verbatim>\<open>load_delta\<close> returned.\<close>

definition calc_data_init :: "row list \<Rightarrow> real \<Rightarrow> real \<Rightarrow> fuel_state" where
  "calc_data_init loaded_list loaded_used loaded_laptime =
     \<lparr> recording = False, delayed_save = False, validating = 0, pit_lap = False,
       delta_list_last = loaded_list, used_last = loaded_used, laptime_last = loaded_laptime,
       delta_list_curr = [DELTA_ZERO], delta_list_temp = DELTA_DEFAULT,
       amount_start = 0, amount_last = 0, used_curr = 0, used_last_raw = loaded_used,
       last_lap_stime = - 1, pos_last = 0, pos_synced = False,
       out_capacity = 0, out_amountStart = 0, out_amountCurrent = 0,
       out_lastLapConsumption = 0 \<rparr>"

text \<open>Lines 155-161, realtime fuel consumption.\<close>

definition consume :: "real \<Rightarrow> fuel_state \<Rightarrow> fuel_state" where
  "consume amount_curr s =
     (if amount_last s < amount_curr
      then s\<lparr>amount_last := amount_curr, amount_start := amount_curr\<rparr>
      else if amount_curr < amount_last s
      then s\<lparr>used_curr := used_curr s + (amount_last s - amount_curr),
             amount_last := amount_curr\<rparr>
      else s)"

text \<open>Lines 163-179, lap start and finish detection.\<close>

definition is_new_lap :: "real \<Rightarrow> fuel_state \<Rightarrow> bool" where
  "is_new_lap lap_stime s \<longleftrightarrow> last_lap_stime s < lap_stime \<and> last_lap_stime s \<noteq> - 1"

definition end_value :: "real \<Rightarrow> fuel_state \<Rightarrow> row" where
  "end_value lap_stime s =
     [round6 (pos_last s + 10), round6 (used_curr s), round6 (lap_stime - last_lap_stime s)]"

definition lap_detect :: "telemetry \<Rightarrow> real \<Rightarrow> real \<Rightarrow> fuel_state \<Rightarrow> fuel_state" where
  "lap_detect api laptime_curr pos_curr s =
     (let lap_stime = timing_start api;
          s1 = (if is_new_lap lap_stime s
                then (let s2 = (if 1 < length (delta_list_curr s) \<and> \<not> pit_lap s
                                then s\<lparr>delta_list_temp := delta_list_curr s @ [end_value lap_stime s],
                                       validating := elapsed api\<rparr>
                                else s)
                      in s2\<lparr>delta_list_curr := [DELTA_ZERO],
                            pos_last := pos_curr,
                            used_last_raw := used_curr s2,
                            used_curr := 0,
                            recording := (laptime_curr < 1),
                            pit_lap := False\<rparr>)
                else s)
      in s1\<lparr>last_lap_stime := lap_stime\<rparr>)"

text \<open>
  Lines 181-183, the distance desync check: it overwrites the local \<^verbatim>\<open>pos_curr\<close>
  too, so the position is returned with the state.
\<close>

definition desync_check :: "real \<Rightarrow> real \<Rightarrow> fuel_state \<Rightarrow> real \<times> fuel_state" where
  "desync_check laptime_curr pos_curr s =
     (if 0 < laptime_curr \<and> laptime_curr < 1 \<and> 300 < pos_curr
      then (0, s\<lparr>pos_last := 0\<rparr>)
      else (pos_curr, s))"

text \<open>Lines 185-190, a new sample when the position is different and not negative.\<close>

definition record_position :: "real \<Rightarrow> fuel_state \<Rightarrow> fuel_state" where
  "record_position pos_curr s =
     (if 0 \<le> pos_curr \<and> pos_curr \<noteq> pos_last s
      then (let s1 = (if recording s \<and> pos_last s < pos_curr
                      then s\<lparr>delta_list_curr :=
                               delta_list_curr s @ [[round6 pos_curr, round6 (used_curr s)]]\<rparr>
                      else s)
            in s1\<lparr>pos_last := pos_curr, pos_synced := True\<rparr>)
      else s)"

text \<open>
  Lines 192-203, validating after the finish line. \<^verbatim>\<open>if validating:\<close> is Python's
  truth of a number: not zero.
\<close>

definition validate :: "telemetry \<Rightarrow> fuel_state \<Rightarrow> fuel_state" where
  "validate api s =
     (if validating s \<noteq> 0
      then (let timer = elapsed api - validating s
            in if 3 / 10 < timer \<and> timer \<le> 3 \<and> 0 < last_laptime api
               then s\<lparr>used_last := used_last_raw s,
                      delta_list_last := delta_list_temp s,
                      delta_list_temp := DELTA_DEFAULT,
                      delayed_save := True,
                      validating := 0\<rparr>
               else if 3 < timer then s\<lparr>validating := 0\<rparr>
               else s)
      else s)"

text \<open>Lines 262-267, the part of the output that is copied from the state.\<close>

definition publish :: "real \<Rightarrow> real \<Rightarrow> fuel_state \<Rightarrow> fuel_state" where
  "publish capacity amount_curr s =
     s\<lparr>out_capacity := capacity,
       out_amountStart := amount_start s,
       out_amountCurrent := amount_curr,
       out_lastLapConsumption := used_last_raw s\<rparr>"

text \<open>One pass of the loop body with \<^verbatim>\<open>updating\<close> true (lines 142-276).\<close>

definition calc_tick :: "telemetry \<Rightarrow> fuel_state \<Rightarrow> fuel_state" where
  "calc_tick api s =
     (let (capacity, amount_curr) = telemetry_fuel api;
          laptime_curr = max (current_laptime api) 0;
          pos_curr = lap_distance api;
          s1 = s\<lparr>pit_lap := (pit_lap s \<or> in_pits api), laptime_last := lap_time_pace api\<rparr>;
          s2 = consume amount_curr s1;
          s3 = lap_detect api laptime_curr pos_curr s2;
          (pos_curr', s4) = desync_check laptime_curr pos_curr s3;
          s5 = record_position pos_curr' s4;
          s6 = validate api s5
      in publish capacity amount_curr s6)"

text \<open>A run of ticks, first tick first.\<close>

fun run_ticks :: "telemetry list \<Rightarrow> fuel_state \<Rightarrow> fuel_state" where
  "run_ticks [] s = s"
| "run_ticks (api # rest) s = run_ticks rest (calc_tick api s)"

text \<open>
  The sum of the positive decrements of a sequence of gauge readings, the previous
  reading given: the quantity the specification compares \<^verbatim>\<open>used_curr\<close> with.
\<close>

fun decrements :: "real \<Rightarrow> real list \<Rightarrow> real" where
  "decrements prev [] = 0"
| "decrements prev (a # rest) = (if a < prev then prev - a else 0) + decrements a rest"

text \<open>
  The ticks stay within one lap: no tick sees a lap start time above the one seen by the
  tick before it (the unset value \<open>-1\<close> never counts as a lap start).
\<close>

fun within_lap :: "real \<Rightarrow> telemetry list \<Rightarrow> bool" where
  "within_lap prev [] = True"
| "within_lap prev (api # rest) =
     ((timing_start api \<le> prev \<or> prev = - 1) \<and> within_lap (timing_start api) rest)"

text \<open>A tick in the middle of a lap that reads \<open>f\<close> from the gauge.\<close>

definition gauge_tick :: "real \<Rightarrow> telemetry" where
  "gauge_tick f = \<lparr>tank_capacity = 100, fuel = f, timing_start = 120, current_laptime = 30,
     lap_distance = 0, in_pits = False, elapsed = 150, last_laptime = 90, lap_time_pace = 90\<rparr>"

section \<open>Fuel module: facts about one tick\<close>

lemma consume_fields:
  "amount_last (consume a s) = a"
  "amount_start (consume a s) = (if amount_last s < a then a else amount_start s)"
  "used_curr (consume a s) = used_curr s + (if a < amount_last s then amount_last s - a else 0)"
  "last_lap_stime (consume a s) = last_lap_stime s"
  by (simp_all add: consume_def)

lemma lap_detect_fields:
  "amount_last (lap_detect api lt p s) = amount_last s"
  "amount_start (lap_detect api lt p s) = amount_start s"
  "last_lap_stime (lap_detect api lt p s) = timing_start api"
  "used_curr (lap_detect api lt p s) = (if is_new_lap (timing_start api) s then 0 else used_curr s)"
  by (simp_all add: lap_detect_def Let_def)

lemma desync_check_fields:
  "amount_last (snd (desync_check lt p s)) = amount_last s"
  "amount_start (snd (desync_check lt p s)) = amount_start s"
  "last_lap_stime (snd (desync_check lt p s)) = last_lap_stime s"
  "used_curr (snd (desync_check lt p s)) = used_curr s"
  by (simp_all add: desync_check_def)

lemma record_position_fields:
  "amount_last (record_position p s) = amount_last s"
  "amount_start (record_position p s) = amount_start s"
  "last_lap_stime (record_position p s) = last_lap_stime s"
  "used_curr (record_position p s) = used_curr s"
  by (simp_all add: record_position_def Let_def)

lemma validate_fields:
  "amount_last (validate api s) = amount_last s"
  "amount_start (validate api s) = amount_start s"
  "last_lap_stime (validate api s) = last_lap_stime s"
  "used_curr (validate api s) = used_curr s"
  by (simp_all add: validate_def Let_def)

lemma publish_fields:
  "amount_last (publish c a s) = amount_last s"
  "amount_start (publish c a s) = amount_start s"
  "last_lap_stime (publish c a s) = last_lap_stime s"
  "used_curr (publish c a s) = used_curr s"
  "out_capacity (publish c a s) = c"
  by (simp_all add: publish_def)

lemmas phase_fields = consume_fields lap_detect_fields desync_check_fields
  record_position_fields validate_fields publish_fields

lemma is_new_lap_cong: "last_lap_stime s' = last_lap_stime s \<Longrightarrow> is_new_lap l s' = is_new_lap l s"
  by (simp add: is_new_lap_def)

lemma calc_tick_amount_last: "amount_last (calc_tick api s) = fuel api"
  by (simp add: calc_tick_def telemetry_fuel_def Let_def split_beta phase_fields)

lemma calc_tick_last_lap_stime: "last_lap_stime (calc_tick api s) = timing_start api"
  by (simp add: calc_tick_def telemetry_fuel_def Let_def split_beta phase_fields)

lemma calc_tick_used_curr:
  "used_curr (calc_tick api s) =
     (if is_new_lap (timing_start api) s then 0
      else used_curr s + (if fuel api < amount_last s then amount_last s - fuel api else 0))"
  by (simp add: calc_tick_def telemetry_fuel_def Let_def split_beta phase_fields is_new_lap_def)

lemma calc_tick_amount_start:
  "amount_start (calc_tick api s) = (if amount_last s < fuel api then fuel api else amount_start s)"
  by (simp add: calc_tick_def telemetry_fuel_def Let_def split_beta phase_fields)

lemma calc_tick_out_capacity: "out_capacity (calc_tick api s) = max (tank_capacity api) 1"
  by (simp add: calc_tick_def telemetry_fuel_def Let_def split_beta phase_fields)

lemma run_ticks_append: "run_ticks (xs @ ys) s = run_ticks ys (run_ticks xs s)"
  by (induction xs arbitrary: s) simp_all

lemma run_ticks_snoc: "run_ticks (xs @ [api]) s = calc_tick api (run_ticks xs s)"
  by (simp add: run_ticks_append)

lemma not_new_lap_within:
  "timing_start api \<le> last_lap_stime s \<or> last_lap_stime s = - 1 \<Longrightarrow> \<not> is_new_lap (timing_start api) s"
  by (auto simp: is_new_lap_def)

lemma used_curr_run_ticks:
  "within_lap (last_lap_stime s) ticks \<Longrightarrow>
   used_curr (run_ticks ticks s) = used_curr s + decrements (amount_last s) (map fuel ticks)"
proof (induction ticks arbitrary: s)
  case Nil
  then show ?case by simp
next
  case (Cons api rest)
  from Cons.prems have here: "\<not> is_new_lap (timing_start api) s"
    and later: "within_lap (last_lap_stime (calc_tick api s)) rest"
    by (simp_all add: not_new_lap_within calc_tick_last_lap_stime)
  from Cons.IH [OF later] here show ?case
    by (simp add: calc_tick_used_curr calc_tick_amount_last)
qed

lemma within_lap_nth:
  "within_lap (last_lap_stime s) ticks \<Longrightarrow> k < length ticks \<Longrightarrow>
   \<not> is_new_lap (timing_start (ticks ! k)) (run_ticks (take k ticks) s)"
proof (induction ticks arbitrary: s k)
  case Nil
  then show ?case by simp
next
  case (Cons api rest)
  show ?case
  proof (cases k)
    case 0
    with Cons.prems show ?thesis by (simp add: not_new_lap_within)
  next
    case (Suc j)
    from Cons.prems have "within_lap (last_lap_stime (calc_tick api s)) rest"
      by (simp add: calc_tick_last_lap_stime)
    with Cons.IH [of "calc_tick api s" j] Cons.prems Suc show ?thesis by simp
  qed
qed

section \<open>Fuel module: consumption within a lap\<close>

text \<open>
  Claim C2. A lap starts with \<^verbatim>\<open>used_curr = 0\<close> and the ticks stay within that lap.
  Then, after the ticks, \<^verbatim>\<open>used_curr\<close> is the sum of the positive decrements of the
  gauge readings, and every tick whose reading is above the last one sets
  \<^verbatim>\<open>amount_start\<close> and \<^verbatim>\<open>amount_last\<close> to the new reading and leaves
  \<^verbatim>\<open>used_curr\<close> as it was.
\<close>

theorem used_curr_accumulates:
  assumes "within_lap (last_lap_stime s) ticks" and "used_curr s = 0"
  shows "used_curr (run_ticks ticks s) = decrements (amount_last s) (map fuel ticks) \<and>
    (\<forall>k<length ticks. amount_last (run_ticks (take k ticks) s) < fuel (ticks ! k) \<longrightarrow>
       amount_start (run_ticks (take (Suc k) ticks) s) = fuel (ticks ! k) \<and>
       amount_last (run_ticks (take (Suc k) ticks) s) = fuel (ticks ! k) \<and>
       used_curr (run_ticks (take (Suc k) ticks) s) = used_curr (run_ticks (take k ticks) s))"
proof (intro conjI allI impI)
  show "used_curr (run_ticks ticks s) = decrements (amount_last s) (map fuel ticks)"
    using used_curr_run_ticks [OF assms(1)] assms(2) by simp
next
  fix k
  assume k: "k < length ticks"
    and up: "amount_last (run_ticks (take k ticks) s) < fuel (ticks ! k)"
  let ?before = "run_ticks (take k ticks) s"
  have step: "run_ticks (take (Suc k) ticks) s = calc_tick (ticks ! k) ?before"
    using k by (simp add: take_Suc_conv_app_nth run_ticks_snoc)
  have same: "\<not> is_new_lap (timing_start (ticks ! k)) ?before"
    using within_lap_nth [OF assms(1) k] .
  show "amount_start (run_ticks (take (Suc k) ticks) s) = fuel (ticks ! k)"
    using up by (simp add: step calc_tick_amount_start)
  show "amount_last (run_ticks (take (Suc k) ticks) s) = fuel (ticks ! k)"
    by (simp add: step calc_tick_amount_last)
  show "used_curr (run_ticks (take (Suc k) ticks) s) = used_curr ?before"
    using up same by (simp add: step calc_tick_used_curr)
qed

lemma init_fields:
  "last_lap_stime (calc_data_init l u t) = - 1"
  "used_curr (calc_data_init l u t) = 0"
  "amount_last (calc_data_init l u t) = 0"
  by (simp_all add: calc_data_init_def)

theorem used_curr_accumulates_witness:
  "within_lap (last_lap_stime (calc_data_init DELTA_DEFAULT 0 0))
     [gauge_tick 50, gauge_tick 49, gauge_tick 60, gauge_tick (117 / 2)] \<and>
   used_curr (calc_data_init DELTA_DEFAULT 0 0) = 0 \<and>
   used_curr (run_ticks [gauge_tick 50, gauge_tick 49, gauge_tick 60, gauge_tick (117 / 2)]
     (calc_data_init DELTA_DEFAULT 0 0)) = 5 / 2"
  using used_curr_accumulates [of "calc_data_init DELTA_DEFAULT 0 0"
      "[gauge_tick 50, gauge_tick 49, gauge_tick 60, gauge_tick (117 / 2)]"]
  by (simp add: init_fields gauge_tick_def)

text \<open>
  Claim C10. \<^verbatim>\<open>telemetry_fuel\<close> returns a capacity of at least 1 (the raw reading
  clamped from below by 1), and so does the capacity that every tick of \<^verbatim>\<open>calc_data\<close>
  works with and publishes.
\<close>

theorem capacity_at_least_one:
  "1 \<le> fst (telemetry_fuel api) \<and> fst (telemetry_fuel api) = max (tank_capacity api) 1 \<and>
   1 \<le> out_capacity (calc_tick api s)"
  by (simp add: telemetry_fuel_def calc_tick_out_capacity)

section \<open>Fuel module: validation of a completed lap\<close>

text \<open>
  The test of line 195-196 against a mark: the tick comes more than 0.3 s and at most 3 s
  after the mark, and the simulator reports a positive last lap time.
\<close>

definition confirms :: "real \<Rightarrow> telemetry \<Rightarrow> bool" where
  "confirms mark api \<longleftrightarrow>
     3 / 10 < elapsed api - mark \<and> elapsed api - mark \<le> 3 \<and> 0 < last_laptime api"

lemma lap_detect_same_lap:
  "\<not> is_new_lap (timing_start api) s \<Longrightarrow>
   lap_detect api lt p s = s\<lparr>last_lap_stime := timing_start api\<rparr>"
  by (simp add: lap_detect_def Let_def)

lemma consume_gate_fields:
  "validating (consume a s) = validating s"
  "delta_list_last (consume a s) = delta_list_last s"
  "delta_list_temp (consume a s) = delta_list_temp s"
  "used_last (consume a s) = used_last s"
  "used_last_raw (consume a s) = used_last_raw s"
  "delayed_save (consume a s) = delayed_save s"
  by (simp_all add: consume_def)

lemma desync_gate_fields:
  "validating (snd (desync_check lt p s)) = validating s"
  "delta_list_last (snd (desync_check lt p s)) = delta_list_last s"
  "delta_list_temp (snd (desync_check lt p s)) = delta_list_temp s"
  "used_last (snd (desync_check lt p s)) = used_last s"
  "used_last_raw (snd (desync_check lt p s)) = used_last_raw s"
  "delayed_save (snd (desync_check lt p s)) = delayed_save s"
  by (simp_all add: desync_check_def)

lemma record_gate_fields:
  "validating (record_position p s) = validating s"
  "delta_list_last (record_position p s) = delta_list_last s"
  "delta_list_temp (record_position p s) = delta_list_temp s"
  "used_last (record_position p s) = used_last s"
  "used_last_raw (record_position p s) = used_last_raw s"
  "delayed_save (record_position p s) = delayed_save s"
  by (simp_all add: record_position_def Let_def)

lemma publish_gate_fields:
  "validating (publish c a s) = validating s"
  "delta_list_last (publish c a s) = delta_list_last s"
  "delta_list_temp (publish c a s) = delta_list_temp s"
  "used_last (publish c a s) = used_last s"
  "used_last_raw (publish c a s) = used_last_raw s"
  "delayed_save (publish c a s) = delayed_save s"
  by (simp_all add: publish_def)

lemma validate_gate_fields:
  "validating (validate api s) =
     (if validating s \<noteq> 0 \<and> (confirms (validating s) api \<or> 3 < elapsed api - validating s)
      then 0 else validating s)"
  "delta_list_last (validate api s) =
     (if validating s \<noteq> 0 \<and> confirms (validating s) api then delta_list_temp s
      else delta_list_last s)"
  "delta_list_temp (validate api s) =
     (if validating s \<noteq> 0 \<and> confirms (validating s) api then DELTA_DEFAULT
      else delta_list_temp s)"
  "used_last (validate api s) =
     (if validating s \<noteq> 0 \<and> confirms (validating s) api then used_last_raw s
      else used_last s)"
  "used_last_raw (validate api s) = used_last_raw s"
  "delayed_save (validate api s) =
     (validating s \<noteq> 0 \<and> confirms (validating s) api \<or> delayed_save s)"
  by (auto simp add: validate_def confirms_def Let_def)

lemmas gate_fields = consume_gate_fields desync_gate_fields record_gate_fields
  publish_gate_fields

lemma calc_tick_same_lap:
  assumes "\<not> is_new_lap (timing_start api) s"
  shows "validating (calc_tick api s) =
     (if validating s \<noteq> 0 \<and> (confirms (validating s) api \<or> 3 < elapsed api - validating s)
      then 0 else validating s)"
    and "delta_list_last (calc_tick api s) =
     (if validating s \<noteq> 0 \<and> confirms (validating s) api then delta_list_temp s
      else delta_list_last s)"
    and "delta_list_temp (calc_tick api s) =
     (if validating s \<noteq> 0 \<and> confirms (validating s) api then DELTA_DEFAULT
      else delta_list_temp s)"
    and "used_last (calc_tick api s) =
     (if validating s \<noteq> 0 \<and> confirms (validating s) api then used_last_raw s
      else used_last s)"
    and "used_last_raw (calc_tick api s) = used_last_raw s"
    and "delayed_save (calc_tick api s) =
     (validating s \<noteq> 0 \<and> confirms (validating s) api \<or> delayed_save s)"
proof -
  let ?s1 = "consume (fst (telemetry_fuel api))
     (s\<lparr>pit_lap := (pit_lap s \<or> in_pits api), laptime_last := lap_time_pace api\<rparr>)"
  have same: "\<not> is_new_lap (timing_start api)
     (consume (fuel api) (s\<lparr>pit_lap := (pit_lap s \<or> in_pits api), laptime_last := lap_time_pace api\<rparr>))"
    using assms by (simp add: is_new_lap_def consume_fields)
  note unfold = calc_tick_def telemetry_fuel_def Let_def split_beta
    lap_detect_same_lap [OF same] gate_fields validate_gate_fields
  show "validating (calc_tick api s) =
     (if validating s \<noteq> 0 \<and> (confirms (validating s) api \<or> 3 < elapsed api - validating s)
      then 0 else validating s)"
    by (simp add: unfold)
  show "delta_list_last (calc_tick api s) =
     (if validating s \<noteq> 0 \<and> confirms (validating s) api then delta_list_temp s
      else delta_list_last s)"
    by (simp add: unfold)
  show "delta_list_temp (calc_tick api s) =
     (if validating s \<noteq> 0 \<and> confirms (validating s) api then DELTA_DEFAULT
      else delta_list_temp s)"
    by (simp add: unfold)
  show "used_last (calc_tick api s) =
     (if validating s \<noteq> 0 \<and> confirms (validating s) api then used_last_raw s
      else used_last s)"
    by (simp add: unfold)
  show "used_last_raw (calc_tick api s) = used_last_raw s"
    by (simp add: unfold)
  show "delayed_save (calc_tick api s) =
     (validating s \<noteq> 0 \<and> confirms (validating s) api \<or> delayed_save s)"
    by (simp add: unfold)
qed

lemma within_lap_stepD:
  "within_lap (last_lap_stime s) (api # rest) \<Longrightarrow>
   \<not> is_new_lap (timing_start api) s \<and> within_lap (last_lap_stime (calc_tick api s)) rest"
  by (simp add: not_new_lap_within calc_tick_last_lap_stime)

lemma within_lap_take: "within_lap l ticks \<Longrightarrow> within_lap l (take k ticks)"
proof (induction ticks arbitrary: l k)
  case Nil
  then show ?case by simp
next
  case (Cons api rest)
  then show ?case by (cases k) simp_all
qed

lemma idle_run:
  "within_lap (last_lap_stime s) ticks \<Longrightarrow> validating s = 0 \<Longrightarrow>
   validating (run_ticks ticks s) = 0 \<and>
   delta_list_last (run_ticks ticks s) = delta_list_last s \<and>
   used_last (run_ticks ticks s) = used_last s \<and>
   delayed_save (run_ticks ticks s) = delayed_save s"
proof (induction ticks arbitrary: s)
  case Nil
  then show ?case by simp
next
  case (Cons api rest)
  from within_lap_stepD [OF Cons.prems(1)]
  have here: "\<not> is_new_lap (timing_start api) s"
    and later: "within_lap (last_lap_stime (calc_tick api s)) rest" by simp_all
  have off: "validating (calc_tick api s) = 0"
    using Cons.prems(2) by (simp add: calc_tick_same_lap [OF here])
  from Cons.IH [OF later off] Cons.prems(2) show ?case
    by (simp add: calc_tick_same_lap [OF here])
qed

lemma unconfirmed_run:
  "within_lap (last_lap_stime s) ticks \<Longrightarrow> validating s = m \<or> validating s = 0 \<Longrightarrow>
   \<forall>api\<in>set ticks. \<not> confirms m api \<Longrightarrow>
   delta_list_last (run_ticks ticks s) = delta_list_last s \<and>
   used_last (run_ticks ticks s) = used_last s"
proof (induction ticks arbitrary: s)
  case Nil
  then show ?case by simp
next
  case (Cons api rest)
  from within_lap_stepD [OF Cons.prems(1)]
  have here: "\<not> is_new_lap (timing_start api) s"
    and later: "within_lap (last_lap_stime (calc_tick api s)) rest" by simp_all
  from Cons.prems(3) have no: "\<not> confirms m api" and rest: "\<forall>a\<in>set rest. \<not> confirms m a"
    by simp_all
  have mark: "validating (calc_tick api s) = m \<or> validating (calc_tick api s) = 0"
    using Cons.prems(2) by (auto simp add: calc_tick_same_lap [OF here])
  have keep: "delta_list_last (calc_tick api s) = delta_list_last s"
    "used_last (calc_tick api s) = used_last s"
    using Cons.prems(2) no by (auto simp add: calc_tick_same_lap [OF here])
  from Cons.IH [OF later mark rest] keep show ?case by simp
qed

lemma expired_run:
  "within_lap (last_lap_stime s) ticks \<Longrightarrow> validating s = m \<or> validating s = 0 \<Longrightarrow>
   api \<in> set ticks \<Longrightarrow> 3 < elapsed api - m \<Longrightarrow> validating (run_ticks ticks s) = 0"
proof (induction ticks arbitrary: s)
  case Nil
  then show ?case by simp
next
  case (Cons a rest)
  from within_lap_stepD [OF Cons.prems(1)]
  have here: "\<not> is_new_lap (timing_start a) s"
    and later: "within_lap (last_lap_stime (calc_tick a s)) rest" by simp_all
  have mark: "validating (calc_tick a s) = m \<or> validating (calc_tick a s) = 0"
    using Cons.prems(2) by (auto simp add: calc_tick_same_lap [OF here])
  show ?case
  proof (cases "a = api")
    case True
    from Cons.prems(4) True have late: "3 < elapsed a - m" by simp
    have "validating (calc_tick a s) = 0"
      using Cons.prems(2) late by (auto simp add: calc_tick_same_lap [OF here])
    with idle_run [OF later] show ?thesis by simp
  next
    case False
    with Cons.prems(3) have "api \<in> set rest" by simp
    from Cons.IH [OF later mark this Cons.prems(4)] show ?thesis by simp
  qed
qed

text \<open>
  The two states of a pending lap during the ticks after its mark: still waiting for the
  simulator, or taken as the reference lap.
\<close>

definition settled :: "real \<Rightarrow> row list \<Rightarrow> real \<Rightarrow> fuel_state \<Rightarrow> bool" where
  "settled m c u s \<longleftrightarrow>
     validating s = 0 \<and> delta_list_last s = c \<and> used_last s = u \<and> delayed_save s"

definition waiting :: "real \<Rightarrow> row list \<Rightarrow> real \<Rightarrow> fuel_state \<Rightarrow> bool" where
  "waiting m c u s \<longleftrightarrow> validating s = m \<and> delta_list_temp s = c \<and> used_last_raw s = u"

lemma settled_run:
  "within_lap (last_lap_stime s) ticks \<Longrightarrow> settled m c u s \<Longrightarrow> settled m c u (run_ticks ticks s)"
  using idle_run [of s ticks] by (simp add: settled_def)

lemma confirmed_run:
  "within_lap (last_lap_stime s) (before @ api # after) \<Longrightarrow> m \<noteq> 0 \<Longrightarrow>
   waiting m c u s \<or> settled m c u s \<Longrightarrow>
   \<forall>b\<in>set before. elapsed b - m \<le> 3 \<Longrightarrow> confirms m api \<Longrightarrow>
   settled m c u (run_ticks (before @ api # after) s)"
proof (induction before arbitrary: s)
  case Nil
  from within_lap_stepD [of s api after] Nil.prems(1)
  have here: "\<not> is_new_lap (timing_start api) s"
    and later: "within_lap (last_lap_stime (calc_tick api s)) after" by simp_all
  have "settled m c u (calc_tick api s)"
    using Nil.prems(2,3,5) by (auto simp add: settled_def waiting_def calc_tick_same_lap [OF here])
  from settled_run [OF later this] show ?case by simp
next
  case (Cons b before)
  from within_lap_stepD [of s b "before @ api # after"] Cons.prems(1)
  have here: "\<not> is_new_lap (timing_start b) s"
    and later: "within_lap (last_lap_stime (calc_tick b s)) (before @ api # after)" by simp_all
  from Cons.prems(4) have b: "elapsed b - m \<le> 3" and rest: "\<forall>x\<in>set before. elapsed x - m \<le> 3"
    by simp_all
  have "waiting m c u (calc_tick b s) \<or> settled m c u (calc_tick b s)"
    using Cons.prems(2,3) b
    by (auto simp add: settled_def waiting_def calc_tick_same_lap [OF here])
  from Cons.IH [OF later Cons.prems(2) this rest Cons.prems(5)] show ?case by simp
qed

text \<open>
  Claim C1, as the code has it. A completed lap is pending (the mark \<^verbatim>\<open>validating\<close> is
  set) and the ticks that follow stay within the new lap, so that no further lap boundary
  replaces the pending lap or its mark. If every tick within 3 seconds of the mark reports a
  last lap time that is not positive, the reference lap (\<^verbatim>\<open>delta_list_last\<close>,
  \<^verbatim>\<open>used_last\<close>) is the same after every tick, and the mark is cleared once a tick
  comes more than 3 seconds after it. If a tick comes more than 0.3 s and at most 3 s after
  the mark with a positive last lap time, no tick before it being more than 3 seconds after
  the mark, the pending curve is the reference lap from then on.
\<close>

theorem validation_gating:
  assumes "validating s \<noteq> 0" and "within_lap (last_lap_stime s) ticks"
  shows "((\<forall>api\<in>set ticks. elapsed api - validating s \<le> 3 \<longrightarrow> last_laptime api \<le> 0) \<longrightarrow>
            (\<forall>k\<le>length ticks.
               delta_list_last (run_ticks (take k ticks) s) = delta_list_last s \<and>
               used_last (run_ticks (take k ticks) s) = used_last s) \<and>
            ((\<exists>api\<in>set ticks. 3 < elapsed api - validating s) \<longrightarrow>
               validating (run_ticks ticks s) = 0)) \<and>
         (\<forall>before api after.
            ticks = before @ api # after \<and> (\<forall>b\<in>set before. elapsed b - validating s \<le> 3) \<and>
            confirms (validating s) api \<longrightarrow>
            delta_list_last (run_ticks ticks s) = delta_list_temp s \<and>
            used_last (run_ticks ticks s) = used_last_raw s \<and>
            validating (run_ticks ticks s) = 0)"
proof (intro conjI impI allI)
  fix k
  assume silent: "\<forall>api\<in>set ticks. elapsed api - validating s \<le> 3 \<longrightarrow> last_laptime api \<le> 0"
  have no: "\<forall>api\<in>set (take k ticks). \<not> confirms (validating s) api"
    using silent by (auto simp add: confirms_def dest!: in_set_takeD)
  have "within_lap (last_lap_stime s) (take k ticks)"
    using assms(2) by (rule within_lap_take)
  from unconfirmed_run [of s "take k ticks" "validating s", OF this _ no]
  show "delta_list_last (run_ticks (take k ticks) s) = delta_list_last s"
    and "used_last (run_ticks (take k ticks) s) = used_last s" by simp_all
next
  assume "\<exists>api\<in>set ticks. 3 < elapsed api - validating s"
  then obtain api where "api \<in> set ticks" "3 < elapsed api - validating s" by blast
  from expired_run [of s ticks "validating s" api, OF assms(2) _ this]
  show "validating (run_ticks ticks s) = 0" by simp
next
  fix before api after
  assume h: "ticks = before @ api # after \<and> (\<forall>b\<in>set before. elapsed b - validating s \<le> 3) \<and>
            confirms (validating s) api"
  have "waiting (validating s) (delta_list_temp s) (used_last_raw s) s"
    by (simp add: waiting_def)
  with confirmed_run [of s before api after "validating s" "delta_list_temp s" "used_last_raw s"]
    assms h
  have fin: "settled (validating s) (delta_list_temp s) (used_last_raw s) (run_ticks ticks s)"
    by simp
  from fin show "delta_list_last (run_ticks ticks s) = delta_list_temp s"
    by (simp add: settled_def)
  from fin show "used_last (run_ticks ticks s) = used_last_raw s"
    by (simp add: settled_def)
  from fin show "validating (run_ticks ticks s) = 0"
    by (simp add: settled_def)
qed

section \<open>Rounding to six decimals\<close>




lemma round6_of_int: "round6 (of_int n) = of_int n"
proof -
  have "of_int n * (1000000::real) = of_int (n * 1000000)" by simp
  then have "round_half_even (of_int n * 1000000) = n * 1000000"
    unfolding round_half_even_def Let_def by (simp only: floor_of_int) simp
  then show ?thesis by (simp add: round6_def)
qed

lemma round6_zero: "round6 0 = 0"
  using round6_of_int [of 0] by simp

lemma round6_numeral: "round6 (numeral n) = numeral n"
  using round6_of_int [of "numeral n"] by simp

section \<open>Fuel module: the curve of a completed lap\<close>


















lemma round6_one: "round6 1 = 1"
  using round6_of_int [of 1] by simp
















section \<open>Fuel module: validation on runs from the start\<close>

text \<open>
  A tick on track with its clock and the last lap time the simulator reports; the state
  reached from the start of the generator after one full lap, with that lap pending since
  the mark 185; and three runs of ticks after it.
\<close>

definition race_tick :: "real \<Rightarrow> real \<Rightarrow> real \<Rightarrow> real \<Rightarrow> real \<Rightarrow> telemetry" where
  "race_tick lap_start clock pos gauge last_lap =
     \<lparr>tank_capacity = 100, fuel = gauge, timing_start = lap_start,
      current_laptime = clock - lap_start, lap_distance = pos, in_pits = False,
      elapsed = clock, last_laptime = last_lap, lap_time_pace = 90\<rparr>"

definition pending_reached :: fuel_state where
  "pending_reached =
     run_ticks [race_tick 10 10 0 50 0, race_tick 95 95 0 50 0, race_tick 95 105 500 48 0,
                race_tick 95 115 1000 46 0, race_tick 185 185 0 46 0]
       (calc_data_init DELTA_DEFAULT 0 0)"

definition overtaken :: "telemetry list" where
  "overtaken = [race_tick 185 (371 / 2) 20 45 0, race_tick 186 186 30 44 0,
                race_tick 186 (373 / 2) 40 44 90]"

definition confirmed_ticks :: "telemetry list" where
  "confirmed_ticks = [race_tick 185 (926 / 5) 5 46 0, race_tick 185 186 20 45 90,
                      race_tick 185 189 100 44 90]"

definition silent_ticks :: "telemetry list" where
  "silent_ticks = [race_tick 185 186 20 45 0, race_tick 185 189 100 44 0]"

lemmas race_unfold = race_tick_def calc_data_init_def DELTA_DEFAULT_def DELTA_ZERO_def
  calc_tick_def telemetry_fuel_def consume_def lap_detect_def is_new_lap_def end_value_def
  desync_check_def record_position_def validate_def publish_def Let_def
  round6_numeral round6_zero round6_one

lemma pending_reached_eq:
  "pending_reached =
     \<lparr>recording = True, delayed_save = False, validating = 185, pit_lap = False,
       delta_list_last = [[0, 0]], used_last = 0, laptime_last = 90,
       delta_list_curr = [[0, 0]],
       delta_list_temp = [[0, 0], [500, 2], [1000, 4], [1010, 4, 90]],
       amount_start = 50, amount_last = 46, used_curr = 0, used_last_raw = 4,
       last_lap_stime = 185, pos_last = 0, pos_synced = True,
       out_capacity = 100, out_amountStart = 50, out_amountCurrent = 46,
       out_lastLapConsumption = 4\<rparr>"
  by (simp add: pending_reached_def race_unfold)

lemma overtaken_eq:
  "run_ticks overtaken pending_reached =
     \<lparr>recording = True, delayed_save = True, validating = 0, pit_lap = False,
       delta_list_last = [[0, 0], [20, 1], [30, 2, 1]], used_last = 2,
       laptime_last = 90, delta_list_curr = [[0, 0], [40, 0]],
       delta_list_temp = [[0, 0]], amount_start = 50, amount_last = 44,
       used_curr = 0, used_last_raw = 2, last_lap_stime = 186, pos_last = 40,
       pos_synced = True, out_capacity = 100, out_amountStart = 50,
       out_amountCurrent = 44, out_lastLapConsumption = 2\<rparr>"
  by (simp add: pending_reached_eq overtaken_def race_unfold)

lemma pending_reached_fields:
  "validating pending_reached = 185"
  "last_lap_stime pending_reached = 185"
  "delta_list_temp pending_reached = [[0, 0], [500, 2], [1000, 4], [1010, 4, 90]]"
  "used_last_raw pending_reached = 4"
  "delta_list_last pending_reached = [[0, 0]]"
  "used_last pending_reached = 0"
  by (simp_all add: pending_reached_eq)

text \<open>
  Claim C1 fails when a second lap boundary falls within the window: the tick at 186.5 comes
  1.5 s after the mark 185 with a positive last lap time, and the reference lap becomes the
  one-second lap that the second boundary appended, not the curve that was pending.
\<close>

theorem validation_gating_counterexample:
  "validating pending_reached = 185 \<and>
   delta_list_temp pending_reached = [[0, 0], [500, 2], [1000, 4], [1010, 4, 90]] \<and>
   3 / 10 < elapsed (race_tick 186 (373 / 2) 40 44 90) - validating pending_reached \<and>
   elapsed (race_tick 186 (373 / 2) 40 44 90) - validating pending_reached \<le> 3 \<and>
   0 < last_laptime (race_tick 186 (373 / 2) 40 44 90) \<and>
   race_tick 186 (373 / 2) 40 44 90 \<in> set overtaken \<and>
   delta_list_last (run_ticks overtaken pending_reached) = [[0, 0], [20, 1], [30, 2, 1]] \<and>
   used_last (run_ticks overtaken pending_reached) = 2 \<and>
   delta_list_last (run_ticks overtaken pending_reached) \<noteq> delta_list_temp pending_reached"
  by (simp add: overtaken_eq pending_reached_fields) (simp add: overtaken_def race_tick_def)

lemma race_tick_fields:
  "timing_start (race_tick l c p g t) = l"
  "elapsed (race_tick l c p g t) = c"
  "last_laptime (race_tick l c p g t) = t"
  by (simp_all add: race_tick_def)

theorem validation_gating_witness:
  "validating pending_reached \<noteq> 0 \<and>
   within_lap (last_lap_stime pending_reached) confirmed_ticks \<and>
   confirms (validating pending_reached) (race_tick 185 186 20 45 90) \<and>
   delta_list_last (run_ticks confirmed_ticks pending_reached) =
     [[0, 0], [500, 2], [1000, 4], [1010, 4, 90]] \<and>
   used_last (run_ticks confirmed_ticks pending_reached) = 4 \<and>
   within_lap (last_lap_stime pending_reached) silent_ticks \<and>
   delta_list_last (run_ticks silent_ticks pending_reached) = [[0, 0]] \<and>
   used_last (run_ticks silent_ticks pending_reached) = 0 \<and>
   validating (run_ticks silent_ticks pending_reached) = 0"
proof -
  have pending: "validating pending_reached \<noteq> 0"
    by (simp add: pending_reached_fields)
  have lap_ok: "within_lap (last_lap_stime pending_reached) confirmed_ticks"
    by (simp add: pending_reached_fields confirmed_ticks_def race_tick_fields)
  have lap_silent: "within_lap (last_lap_stime pending_reached) silent_ticks"
    by (simp add: pending_reached_fields silent_ticks_def race_tick_fields)
  have conf: "confirms (validating pending_reached) (race_tick 185 186 20 45 90)"
    by (simp add: confirms_def pending_reached_fields race_tick_fields)
  have split: "confirmed_ticks =
      [race_tick 185 (926 / 5) 5 46 0] @ race_tick 185 186 20 45 90 # [race_tick 185 189 100 44 90]"
    by (simp add: confirmed_ticks_def)
  have early: "\<forall>b\<in>set [race_tick 185 (926 / 5) 5 46 0].
      elapsed b - validating pending_reached \<le> 3"
    by (simp add: pending_reached_fields race_tick_fields)
  from validation_gating [OF pending lap_ok] split early conf
  have "delta_list_last (run_ticks confirmed_ticks pending_reached) = delta_list_temp pending_reached \<and>
        used_last (run_ticks confirmed_ticks pending_reached) = used_last_raw pending_reached"
    by blast
  then have ok: "delta_list_last (run_ticks confirmed_ticks pending_reached) =
      [[0, 0], [500, 2], [1000, 4], [1010, 4, 90]]"
    "used_last (run_ticks confirmed_ticks pending_reached) = 4"
    by (simp_all add: pending_reached_fields)
  have quiet: "\<forall>api\<in>set silent_ticks.
      elapsed api - validating pending_reached \<le> 3 \<longrightarrow> last_laptime api \<le> 0"
    by (simp add: silent_ticks_def race_tick_fields)
  have late: "\<exists>api\<in>set silent_ticks. 3 < elapsed api - validating pending_reached"
    by (simp add: silent_ticks_def pending_reached_fields race_tick_fields)
  from validation_gating [OF pending lap_silent] quiet late
  have "(\<forall>k\<le>length silent_ticks.
           delta_list_last (run_ticks (take k silent_ticks) pending_reached) =
             delta_list_last pending_reached \<and>
           used_last (run_ticks (take k silent_ticks) pending_reached) = used_last pending_reached) \<and>
        validating (run_ticks silent_ticks pending_reached) = 0"
    by blast
  then have allk: "\<forall>k\<le>length silent_ticks.
           delta_list_last (run_ticks (take k silent_ticks) pending_reached) =
             delta_list_last pending_reached \<and>
           used_last (run_ticks (take k silent_ticks) pending_reached) = used_last pending_reached"
    and off: "validating (run_ticks silent_ticks pending_reached) = 0"
    by blast+
  from allk have "delta_list_last (run_ticks (take (length silent_ticks) silent_ticks) pending_reached) =
        delta_list_last pending_reached \<and>
      used_last (run_ticks (take (length silent_ticks) silent_ticks) pending_reached) =
        used_last pending_reached"
    by blast
  then have silent: "delta_list_last (run_ticks silent_ticks pending_reached) = [[0, 0]]"
    "used_last (run_ticks silent_ticks pending_reached) = 0"
    by (simp_all add: pending_reached_fields)
  from pending lap_ok conf ok lap_silent silent off show ?thesis by blast
qed

section \<open>Relative module: the player-centred window\<close>

text \<open>
  Python's slices \<^verbatim>\<open>xs[i:j]\<close>, \<^verbatim>\<open>xs[i:]\<close> and \<^verbatim>\<open>xs[:j]\<close>: a negative bound
  counts from the end, and every bound is clamped to the list.
\<close>

definition py_index :: "int \<Rightarrow> nat \<Rightarrow> nat" where
  "py_index k n = (if k < 0 then nat (max (k + int n) 0) else min (nat k) n)"

definition slice :: "'a list \<Rightarrow> int \<Rightarrow> int \<Rightarrow> 'a list" where
  "slice xs i j =
     take (py_index j (length xs) - py_index i (length xs)) (drop (py_index i (length xs)) xs)"


definition slice_to :: "'a list \<Rightarrow> int \<Rightarrow> 'a list" where
  "slice_to xs j = take (py_index j (length xs)) xs"

text \<open>\<^verbatim>\<open>xs.index(x)\<close>, called only when \<^verbatim>\<open>x in xs\<close>.\<close>

fun index_of :: "'a list \<Rightarrow> 'a \<Rightarrow> nat" where
  "index_of [] x = 0"
| "index_of (y # ys) x = (if y = x then 0 else Suc (index_of ys x))"

























section \<open>Relative module: the standings list\<close>

text \<open>The exceptions of Python that the modelled functions can raise.\<close>

datatype py_error = IndexError | ValueError | TypeError | FileNotFoundError | PermissionError

text \<open>\<^verbatim>\<open>ALL_PLACES = list(range(1, 129))\<close>.\<close>

definition ALL_PLACES :: "int list" where
  "ALL_PLACES = [1..128]"

text \<open>\<^verbatim>\<open>create_reference_place\<close> (lines 267-287); \<^verbatim>\<open>//\<close> is the floor division.\<close>

definition create_reference_place :: "int \<Rightarrow> int \<Rightarrow> int \<Rightarrow> int \<Rightarrow> int list" where
  "create_reference_place min_top_veh veh_total plr_place veh_limit =
     (if veh_total \<le> veh_limit then slice_to ALL_PLACES veh_total
      else if plr_place \<le> min_top_veh then slice_to ALL_PLACES veh_limit
      else
        let max_cut_range = veh_limit - min_top_veh;
            rear_cut_count = (max_cut_range - 1) div 2;
            front_cut_count = max_cut_range - rear_cut_count;
            front_cut_raw = plr_place - front_cut_count;
            front_cut_raw = (if front_cut_raw < min_top_veh then min_top_veh else front_cut_raw);
            rear_cut_max = front_cut_raw + max_cut_range;
            rear_cut_max = (if veh_total < rear_cut_max then veh_total else rear_cut_max);
            front_cut_max = rear_cut_max - max_cut_range
        in slice_to ALL_PLACES min_top_veh @ slice ALL_PLACES front_cut_max rear_cut_max)"

text \<open>
  \<^verbatim>\<open>player_index_from_place_reference\<close> (lines 290-298), as the list of what the
  generator yields: the loop stops at the first place that is out of range, and the
  sentinel -1 is yielded last. A pair of the place list is (place, vehicle index).
\<close>

definition player_index_from_place_reference :: "int list \<Rightarrow> (int \<times> int) list \<Rightarrow> int list" where
  "player_index_from_place_reference ref_place_list place_index_list =
     (let max_places = int (length place_index_list)
      in map (\<lambda>ref_idx. snd (place_index_list ! nat (ref_idx - 1)))
           (takeWhile (\<lambda>ref_idx. 0 < ref_idx \<and> ref_idx \<le> max_places) ref_place_list)
         @ [- 1])"

text \<open>\<^verbatim>\<open>calc_standings_index\<close> (lines 259-264).\<close>

definition calc_standings_index ::
  "int \<Rightarrow> int \<Rightarrow> int \<Rightarrow> int \<Rightarrow> (int \<times> int) list \<Rightarrow> int list" where
  "calc_standings_index min_top_veh veh_total veh_limit plr_place place_index_list =
     (let ref_place_list = create_reference_place min_top_veh veh_total plr_place veh_limit
      in player_index_from_place_reference ref_place_list place_index_list)"

text \<open>
  One tuple of the class position list, as \<^verbatim>\<open>create_position_in_class\<close> yields it:
  0 vehicle index, 1 position in class, 2 class name, 3 session best, 4 class best,
  5 index ahead, 6 index behind.
\<close>

record class_pos =
  cp_index :: int
  cp_position :: int
  cp_class :: string
  cp_session_best :: real
  cp_class_best :: real
  cp_ahead :: int
  cp_behind :: int

text \<open>
  \<^verbatim>\<open>split_class_list\<close> (lines 301-315): the loop over the vehicles with its local
  variables, the slices it yields, and the final slice. Reading \<^verbatim>\<open>class_list[0]\<close> of an
  empty list raises.
\<close>

fun split_loop ::
  "class_pos list \<Rightarrow> string \<Rightarrow> nat \<Rightarrow> nat \<Rightarrow> class_pos list \<Rightarrow> class_pos list list" where
  "split_loop class_list class_name index_start index_end [] =
     [take (index_end - index_start) (drop index_start class_list)]"
| "split_loop class_list class_name index_start index_end (vehicle # rest) =
     (if cp_class vehicle = class_name
      then split_loop class_list class_name index_start (index_end + 1) rest
      else take (index_end - index_start) (drop index_start class_list)
           # split_loop class_list (cp_class vehicle) index_end (index_end + 1) rest)"

definition split_class_list :: "class_pos list \<Rightarrow> py_error + class_pos list list" where
  "split_class_list class_list =
     (case class_list of
        [] \<Rightarrow> Inl IndexError
      | first # _ \<Rightarrow> Inr (split_loop class_list (cp_class first) 0 0 class_list))"

text \<open>\<^verbatim>\<open>sort_class_collection\<close> (lines 356-358).\<close>

definition sort_class_collection :: "class_pos list \<Rightarrow> real" where
  "sort_class_collection collection = cp_class_best (hd collection)"

text \<open>
  \<^verbatim>\<open>create_class_standings_index\<close> (lines 238-256): the body of its loop for one class,
  and the list of the blocks it yields. \<^verbatim>\<open>class_split[1]\<close> raises for an empty class
  list.
\<close>

definition class_standings_index :: "int \<Rightarrow> int \<Rightarrow> int \<Rightarrow> int \<Rightarrow> class_pos list \<Rightarrow> py_error + int list" where
  "class_standings_index min_top_veh plr_index veh_limit_other veh_limit_player class_list =
     (if class_list = [] then Inl IndexError
      else
        let place_index_list = map (\<lambda>v. (cp_position v, cp_index v)) class_list;
            veh_total = cp_position (last class_list);
            indices = map cp_index class_list;
            (veh_limit, plr_place) =
              (if plr_index \<in> set indices
               then (veh_limit_player, cp_position (class_list ! index_of indices plr_index))
               else (veh_limit_other, 0))
        in Inr (calc_standings_index min_top_veh veh_total veh_limit plr_place place_index_list))"

fun create_class_standings_index ::
  "int \<Rightarrow> int \<Rightarrow> class_pos list list \<Rightarrow> int \<Rightarrow> int \<Rightarrow> py_error + int list list" where
  "create_class_standings_index min_top_veh plr_index [] veh_limit_other veh_limit_player = Inr []"
| "create_class_standings_index min_top_veh plr_index (class_list # rest)
     veh_limit_other veh_limit_player =
     (case class_standings_index min_top_veh plr_index veh_limit_other veh_limit_player class_list of
        Inl e \<Rightarrow> Inl e
      | Inr block \<Rightarrow>
          (case create_class_standings_index min_top_veh plr_index rest
                  veh_limit_other veh_limit_player of
             Inl e \<Rightarrow> Inl e
           | Inr blocks \<Rightarrow> Inr (block # blocks)))"

text \<open>
  \<^verbatim>\<open>create_standings_index\<close> (lines 175-196). \<^verbatim>\<open>sorted\<close> is stable, as
  \<^const>\<open>sort_key\<close> is; the key of an empty class list raises. The limits are the triple
  (all, other classes, player's class).
\<close>

definition create_standings_index ::
  "int \<Rightarrow> int \<times> int \<times> int \<Rightarrow> int \<Rightarrow> int \<Rightarrow> int \<Rightarrow> class_pos list \<Rightarrow> (int \<times> int) list \<Rightarrow> bool
     \<Rightarrow> py_error + int list" where
  "create_standings_index min_top_veh veh_limit veh_total plr_index plr_place
     class_pos_list place_index_list is_multi_class =
     (if is_multi_class
      then
        let sorted_class_pos_list =
              sort_key (\<lambda>v. (cp_class v, cp_class_best v, cp_position v)) class_pos_list
        in case split_class_list sorted_class_pos_list of
             Inl e \<Rightarrow> Inl e
           | Inr groups \<Rightarrow>
               if [] \<in> set groups then Inl IndexError
               else
                 let class_collection = sort_key sort_class_collection groups
                 in (case create_class_standings_index min_top_veh plr_index class_collection
                           (fst (snd veh_limit)) (snd (snd veh_limit)) of
                       Inl e \<Rightarrow> Inl e
                     | Inr blocks \<Rightarrow> Inr (concat blocks))
      else Inr (calc_standings_index min_top_veh veh_total (fst veh_limit) plr_place
                  place_index_list))"

text \<open>The limits from the settings (lines 327-353).\<close>

definition min_top_vehicles_in_class :: "int \<Rightarrow> int" where
  "min_top_vehicles_in_class min_top_veh = min (max min_top_veh 1) 5"

definition max_vehicles_in_class :: "int \<Rightarrow> int \<Rightarrow> int \<Rightarrow> int" where
  "max_vehicles_in_class max_cls_veh min_top_veh min_add_veh = max max_cls_veh (min_top_veh + min_add_veh)"

definition max_vehicle_limit_set :: "int \<Rightarrow> int \<Rightarrow> int \<Rightarrow> int \<Rightarrow> int \<times> int \<times> int" where
  "max_vehicle_limit_set min_top_veh max_all max_others max_player =
     (let limit_all = max_vehicles_in_class max_all min_top_veh 2;
          limit_other = max_vehicles_in_class max_others min_top_veh 0;
          limit_player = max_vehicles_in_class max_player min_top_veh 2
      in (limit_all, limit_other, limit_player))"

text \<open>
  The slices of \<^verbatim>\<open>split_class_list\<close> as lists: the vehicles of the current slice so far,
  its class name, and the vehicles still to come. Used in the proofs, as is the number of
  changes of value along a list.
\<close>

fun groups_from :: "class_pos list \<Rightarrow> string \<Rightarrow> class_pos list \<Rightarrow> class_pos list list" where
  "groups_from acc name [] = [acc]"
| "groups_from acc name (v # rest) =
     (if cp_class v = name then groups_from (acc @ [v]) name rest
      else acc # groups_from [v] (cp_class v) rest)"

fun changes :: "'a \<Rightarrow> 'a list \<Rightarrow> nat" where
  "changes n [] = 0"
| "changes n (x # xs) = (if x = n then changes n xs else Suc (changes x xs))"

lemma split_loop_groups:
  "st \<le> length pre \<Longrightarrow>
   split_loop (pre @ rest) name st (length pre) rest = groups_from (drop st pre) name rest"
proof (induction rest arbitrary: pre name st)
  case Nil
  then show ?case by simp
next
  case (Cons v rest)
  have step: "pre @ v # rest = (pre @ [v]) @ rest" by simp
  have len: "length pre + 1 = length (pre @ [v])" by simp
  have grp: "take (length pre - st) (drop st (pre @ v # rest)) = drop st pre"
    using Cons.prems by simp
  show ?case
  proof (cases "cp_class v = name")
    case True
    from Cons.prems have "st \<le> length (pre @ [v])" by simp
    from Cons.IH [OF this, of name] True Cons.prems show ?thesis
      by (simp only: split_loop.simps groups_from.simps step len if_True) simp
  next
    case False
    have "length pre \<le> length (pre @ [v])" by simp
    from Cons.IH [OF this, of "cp_class v"] False show ?thesis
      by (simp only: split_loop.simps groups_from.simps step len if_False grp) simp
  qed
qed

lemma split_class_list_groups:
  "split_class_list (v # rest) = Inr (groups_from [] (cp_class v) (v # rest))"
  using split_loop_groups [of 0 "[]" "v # rest" "cp_class v"]
  by (simp add: split_class_list_def)

lemma concat_groups_from: "concat (groups_from acc name rest) = acc @ rest"
  by (induction rest arbitrary: acc name) simp_all

lemma length_groups_from:
  "length (groups_from acc name rest) = Suc (changes name (map cp_class rest))"
  by (induction rest arbitrary: acc name) simp_all

lemma groups_from_nonempty:
  "acc \<noteq> [] \<or> (rest \<noteq> [] \<and> cp_class (hd rest) = name) \<Longrightarrow> [] \<notin> set (groups_from acc name rest)"
proof (induction rest arbitrary: acc name)
  case Nil
  then show ?case by simp
next
  case (Cons v rest)
  show ?case
  proof (cases "cp_class v = name")
    case True
    with Cons.IH [of "acc @ [v]" name] show ?thesis by simp
  next
    case False
    with Cons.prems have "acc \<noteq> []" by simp
    with False Cons.IH [of "[v]" "cp_class v"] show ?thesis by simp
  qed
qed

lemma changes_sorted:
  fixes n :: "'a :: linorder"
  shows "sorted (n # xs) \<Longrightarrow> Suc (changes n xs) = card (set (n # xs))"
proof (induction xs arbitrary: n)
  case Nil
  then show ?case by simp
next
  case (Cons x xs)
  show ?case
  proof (cases "x = n")
    case True
    from Cons.prems have "sorted (n # xs)" by simp
    from Cons.IH [OF this] True show ?thesis by (simp add: insert_absorb)
  next
    case False
    from Cons.prems have srt: "sorted (x # xs)" and le: "n \<le> x" and all: "\<forall>y\<in>set xs. x \<le> y"
      by auto
    from le False all have "n \<notin> set (x # xs)" by auto
    then have "card (set (n # x # xs)) = Suc (card (set (x # xs)))" by simp
    with Cons.IH [OF srt] False show ?thesis by simp
  qed
qed

lemma player_index_shape:
  "\<exists>ys. player_index_from_place_reference ref pil = ys @ [- 1] \<and> set ys \<subseteq> snd ` set pil"
proof -
  let ?ok = "\<lambda>ref_idx. 0 < ref_idx \<and> ref_idx \<le> int (length pil)"
  let ?ys = "map (\<lambda>ref_idx. snd (pil ! nat (ref_idx - 1))) (takeWhile ?ok ref)"
  have "set ?ys \<subseteq> snd ` set pil"
  proof
    fix y assume "y \<in> set ?ys"
    then obtain r where r: "r \<in> set (takeWhile ?ok ref)" and y: "y = snd (pil ! nat (r - 1))"
      by auto
    from r have "?ok r" by (rule set_takeWhileD [THEN conjunct2])
    then have "nat (r - 1) < length pil" by linarith
    then have "pil ! nat (r - 1) \<in> set pil" by (rule nth_mem)
    with y show "y \<in> snd ` set pil" by simp
  qed
  then show ?thesis
    by (simp add: player_index_from_place_reference_def Let_def)
qed

lemma calc_standings_index_shape:
  "\<exists>ys. calc_standings_index m t l p pil = ys @ [- 1] \<and> set ys \<subseteq> snd ` set pil"
  unfolding calc_standings_index_def Let_def by (rule player_index_shape)

lemma class_standings_index_eq:
  assumes "class_list \<noteq> []"
  shows "class_standings_index m plr lo lp class_list =
     Inr (calc_standings_index m (cp_position (last class_list))
       (if plr \<in> cp_index ` set class_list then lp else lo)
       (if plr \<in> cp_index ` set class_list
        then cp_position (class_list ! index_of (map cp_index class_list) plr) else 0)
       (map (\<lambda>v. (cp_position v, cp_index v)) class_list))"
  using assms by (simp add: class_standings_index_def Let_def)

lemma class_standings_index_shape:
  assumes "class_list \<noteq> []"
  shows "\<exists>ys. class_standings_index m plr lo lp class_list = Inr (ys @ [- 1]) \<and>
    set ys \<subseteq> cp_index ` set class_list"
proof -
  let ?pil = "map (\<lambda>v. (cp_position v, cp_index v)) class_list"
  have img: "snd ` set ?pil = cp_index ` set class_list" by (auto simp add: image_iff)
  from calc_standings_index_shape [of m "cp_position (last class_list)" _ _ ?pil] img
  show ?thesis unfolding class_standings_index_eq [OF assms] by auto
qed

lemma create_class_standings_index_shape:
  "[] \<notin> set collection \<Longrightarrow>
   \<exists>blocks. create_class_standings_index m plr collection lo lp =
       Inr (map (\<lambda>b. b @ [- 1]) blocks) \<and>
     length blocks = length collection \<and>
     (\<forall>b\<in>set blocks. set b \<subseteq> cp_index ` (\<Union>g\<in>set collection. set g))"
proof (induction collection)
  case Nil
  then show ?case by simp
next
  case (Cons g rest)
  from Cons.prems have g: "g \<noteq> []" and rest: "[] \<notin> set rest" by auto
  from class_standings_index_shape [OF g, of m plr lo lp] obtain ys where
    ys: "class_standings_index m plr lo lp g = Inr (ys @ [- 1])" "set ys \<subseteq> cp_index ` set g"
    by blast
  from Cons.IH [OF rest] obtain blocks where
    bl: "create_class_standings_index m plr rest lo lp = Inr (map (\<lambda>b. b @ [- 1]) blocks)"
      "length blocks = length rest"
      "\<forall>b\<in>set blocks. set b \<subseteq> cp_index ` (\<Union>g\<in>set rest. set g)"
    by blast
  have "create_class_standings_index m plr (g # rest) lo lp =
      Inr (map (\<lambda>b. b @ [- 1]) (ys # blocks))"
    by (simp add: ys(1) bl(1))
  moreover have "length (ys # blocks) = length (g # rest)" by (simp add: bl(2))
  moreover have "\<forall>b\<in>set (ys # blocks). set b \<subseteq> cp_index ` (\<Union>g\<in>set (g # rest). set g)"
  proof
    fix b assume "b \<in> set (ys # blocks)"
    then consider "b = ys" | "b \<in> set blocks" by auto
    then show "set b \<subseteq> cp_index ` (\<Union>g\<in>set (g # rest). set g)"
    proof cases
      case 1
      with ys(2) show ?thesis by auto
    next
      case 2
      with bl(3) have "set b \<subseteq> cp_index ` (\<Union>g\<in>set rest. set g)" by blast
      moreover have "cp_index ` (\<Union>g\<in>set rest. set g)
          \<subseteq> cp_index ` (\<Union>g\<in>set (g # rest). set g)"
        by (intro image_mono) auto
      ultimately show ?thesis by (rule subset_trans)
    qed
  qed
  ultimately show ?case by blast
qed

lemma sorted_fst_key:
  fixes f :: "'a \<Rightarrow> ('b :: linorder) \<times> ('c :: linorder)"
  shows "sorted (map f xs) \<Longrightarrow> sorted (map (\<lambda>x. fst (f x)) xs)"
proof (induction xs)
  case Nil
  then show ?case by simp
next
  case (Cons x xs)
  from Cons.prems have "\<forall>y\<in>set xs. f x \<le> f y" and "sorted (map f xs)" by auto
  moreover have "\<And>a b :: 'b \<times> 'c. a \<le> b \<Longrightarrow> fst a \<le> fst b"
    by (auto simp add: less_eq_prod_def)
  ultimately show ?case using Cons.IH by auto
qed

lemma sorted_by_class:
  "sorted (map cp_class (sort_key (\<lambda>v. (cp_class v, cp_class_best v, cp_position v)) xs))"
  using sorted_fst_key [of "\<lambda>v. (cp_class v, cp_class_best v, cp_position v)"
      "sort_key (\<lambda>v. (cp_class v, cp_class_best v, cp_position v)) xs"]
  by simp

lemma last_concat_sentinel:
  "blocks \<noteq> [] \<Longrightarrow> concat (map (\<lambda>b. b @ [s]) blocks) \<noteq> [] \<and>
   last (concat (map (\<lambda>b. b @ [s]) blocks)) = s"
proof (induction blocks rule: rev_induct)
  case Nil
  then show ?case by simp
next
  case (snoc b blocks)
  show ?case by simp
qed

lemma create_standings_index_single:
  "\<exists>ys. create_standings_index m vl vt plr pp cpl pil False = Inr (ys @ [- 1]) \<and>
     set ys \<subseteq> snd ` set pil"
  using calc_standings_index_shape [of m vt "fst vl" pp pil]
  by (simp add: create_standings_index_def)

lemma create_standings_index_empty:
  "create_standings_index m vl vt plr pp [] pil True = Inl IndexError"
  by (simp add: create_standings_index_def split_class_list_def)

lemma create_standings_index_multi:
  assumes "cpl \<noteq> []"
  shows "\<exists>blocks. create_standings_index m vl vt plr pp cpl pil True =
        Inr (concat (map (\<lambda>b. b @ [- 1]) blocks)) \<and>
      length blocks = card (cp_class ` set cpl) \<and> blocks \<noteq> [] \<and>
      (\<forall>b\<in>set blocks. set b \<subseteq> cp_index ` set cpl)"
proof -
  let ?key = "\<lambda>v. (cp_class v, cp_class_best v, cp_position v)"
  let ?S = "sort_key ?key cpl"
  have setS: "set ?S = set cpl" by simp
  from assms have "?S \<noteq> []" by (metis length_sort length_0_conv)
  then obtain v rest where S: "?S = v # rest" by (cases ?S) auto
  let ?groups = "groups_from [v] (cp_class v) rest"
  have split: "split_class_list ?S = Inr ?groups"
    unfolding S by (simp add: split_class_list_groups)
  have ne: "[] \<notin> set ?groups" by (rule groups_from_nonempty) simp
  have cat: "concat ?groups = ?S" by (simp add: concat_groups_from S)
  have "sorted (map cp_class ?S)" by (rule sorted_by_class)
  then have "sorted (cp_class v # map cp_class rest)" by (simp only: S list.map)
  from changes_sorted [OF this]
  have "Suc (changes (cp_class v) (map cp_class rest)) = card (set (map cp_class ?S))"
    by (simp only: S list.map)
  moreover have "length ?groups = Suc (changes (cp_class v) (map cp_class rest))"
    by (simp add: length_groups_from)
  ultimately have len: "length ?groups = card (cp_class ` set cpl)"
    by (simp only: set_map setS)
  let ?coll = "sort_key sort_class_collection ?groups"
  have ne': "[] \<notin> set ?coll" using ne by simp
  from create_class_standings_index_shape [OF ne', of m plr "fst (snd vl)" "snd (snd vl)"]
  obtain blocks where
    bl: "create_class_standings_index m plr ?coll (fst (snd vl)) (snd (snd vl)) =
      Inr (map (\<lambda>b. b @ [- 1]) blocks)"
      "length blocks = length ?coll"
      "\<forall>b\<in>set blocks. set b \<subseteq> cp_index ` (\<Union>g\<in>set ?coll. set g)"
    by blast
  have "(\<Union>g\<in>set ?coll. set g) = set (concat ?groups)" by simp
  also have "\<dots> = set cpl" by (simp only: cat setS)
  finally have un: "(\<Union>g\<in>set ?coll. set g) = set cpl" .
  have res: "create_standings_index m vl vt plr pp cpl pil True =
      Inr (concat (map (\<lambda>b. b @ [- 1]) blocks))"
    using ne by (simp add: create_standings_index_def Let_def split bl(1))
  have l2: "length blocks = card (cp_class ` set cpl)"
    using bl(2) len by simp
  from assms have "cp_class ` set cpl \<noteq> {}" by simp
  then have "card (cp_class ` set cpl) \<noteq> 0" by simp
  with l2 have "blocks \<noteq> []" by auto
  with res l2 bl(3) un show ?thesis by auto
qed

text \<open>
  Claim C9. Every standings index list that \<^verbatim>\<open>create_standings_index\<close> returns is not
  empty and ends with the sentinel -1. In single-class mode it is vehicle indices of the
  place list followed by one -1. In multi-class split mode it is one block per class, each
  block being vehicle indices followed by -1, the last block too. (In multi-class mode an
  empty class position list raises and no list is returned; \<^verbatim>\<open>update_data\<close> never
  passes one, since it counts at least one vehicle.)
\<close>

theorem standings_sentinel:
  "(\<not> is_multi_class \<longrightarrow>
      (\<exists>ys. create_standings_index m vl vt plr pp cpl pil is_multi_class = Inr (ys @ [- 1]) \<and>
         set ys \<subseteq> snd ` set pil)) \<and>
   (is_multi_class \<and> cpl \<noteq> [] \<longrightarrow>
      (\<exists>blocks. create_standings_index m vl vt plr pp cpl pil is_multi_class =
           Inr (concat (map (\<lambda>b. b @ [- 1]) blocks)) \<and>
         length blocks = card (cp_class ` set cpl) \<and> blocks \<noteq> [] \<and>
         (\<forall>b\<in>set blocks. set b \<subseteq> cp_index ` set cpl))) \<and>
   (is_multi_class \<and> cpl = [] \<longrightarrow>
      create_standings_index m vl vt plr pp cpl pil is_multi_class = Inl IndexError) \<and>
   (\<forall>xs. create_standings_index m vl vt plr pp cpl pil is_multi_class = Inr xs \<longrightarrow>
      xs \<noteq> [] \<and> last xs = - 1)"
proof (intro conjI impI allI)
  assume "\<not> is_multi_class"
  then show "\<exists>ys. create_standings_index m vl vt plr pp cpl pil is_multi_class = Inr (ys @ [- 1]) \<and>
         set ys \<subseteq> snd ` set pil"
    using create_standings_index_single [of m vl vt plr pp cpl pil] by simp
next
  assume "is_multi_class \<and> cpl \<noteq> []"
  then show "\<exists>blocks. create_standings_index m vl vt plr pp cpl pil is_multi_class =
           Inr (concat (map (\<lambda>b. b @ [- 1]) blocks)) \<and>
         length blocks = card (cp_class ` set cpl) \<and> blocks \<noteq> [] \<and>
         (\<forall>b\<in>set blocks. set b \<subseteq> cp_index ` set cpl)"
    using create_standings_index_multi [of cpl m vl vt plr pp pil] by simp
next
  assume "is_multi_class \<and> cpl = []"
  then show "create_standings_index m vl vt plr pp cpl pil is_multi_class = Inl IndexError"
    by (simp add: create_standings_index_empty)
next
  fix xs
  assume r: "create_standings_index m vl vt plr pp cpl pil is_multi_class = Inr xs"
  have "xs \<noteq> [] \<and> last xs = - 1"
  proof (cases is_multi_class)
    case False
    with create_standings_index_single [of m vl vt plr pp cpl pil] r show ?thesis by auto
  next
    case True
    show ?thesis
    proof (cases "cpl = []")
      case True
      with \<open>is_multi_class\<close> r show ?thesis by (simp add: create_standings_index_empty)
    next
      case False
      from create_standings_index_multi [OF False, of m vl vt plr pp pil] \<open>is_multi_class\<close> r
      obtain blocks where "xs = concat (map (\<lambda>b. b @ [- 1]) blocks)" "blocks \<noteq> []" by auto
      with last_concat_sentinel [of blocks "- 1"] show ?thesis by simp
    qed
  qed
  then show "xs \<noteq> []" and "last xs = - 1" by simp_all
qed

text \<open>Three cars in two classes.\<close>

definition three_cars :: "class_pos list" where
  "three_cars =
     [\<lparr>cp_index = 0, cp_position = 1, cp_class = ''GT3'', cp_session_best = 90,
       cp_class_best = 100, cp_ahead = - 1, cp_behind = 2\<rparr>,
      \<lparr>cp_index = 1, cp_position = 1, cp_class = ''LMP'', cp_session_best = 90,
       cp_class_best = 90, cp_ahead = - 1, cp_behind = - 1\<rparr>,
      \<lparr>cp_index = 2, cp_position = 2, cp_class = ''GT3'', cp_session_best = 90,
       cp_class_best = 100, cp_ahead = 0, cp_behind = - 1\<rparr>]"

lemma single_value:
  "create_standings_index 3 (10, 5, 10) 4 0 2 three_cars [(1, 2), (2, 0), (3, 1), (4, 3)] False =
     Inr [2, 0, 1, 3, - 1]"
  by code_simp

lemma multi_value:
  "create_standings_index 3 (10, 5, 10) 3 0 2 three_cars [(1, 1), (2, 0), (3, 2)] True =
     Inr [1, - 1, 0, 2, - 1]"
  by code_simp

theorem standings_sentinel_witness:
  "create_standings_index 3 (10, 5, 10) 4 0 2 three_cars [(1, 2), (2, 0), (3, 1), (4, 3)] False =
     Inr [2, 0, 1, 3, - 1] \<and>
   last [2, 0, 1, 3, - 1 :: int] = - 1 \<and>
   three_cars \<noteq> [] \<and>
   create_standings_index 3 (10, 5, 10) 3 0 2 three_cars [(1, 1), (2, 0), (3, 2)] True =
     Inr [1, - 1, 0, 2, - 1] \<and>
   last [1, - 1, 0, 2, - 1 :: int] = - 1"
proof -
  from standings_sentinel [where is_multi_class = False and m = 3 and vl = "(10, 5, 10)" and vt = 4
      and plr = 0 and pp = 2 and cpl = three_cars and pil = "[(1, 2), (2, 0), (3, 1), (4, 3)]"]
    single_value
  have a: "last [2, 0, 1, 3, - 1 :: int] = - 1" by blast
  from standings_sentinel [where is_multi_class = True and m = 3 and vl = "(10, 5, 10)" and vt = 3
      and plr = 0 and pp = 2 and cpl = three_cars and pil = "[(1, 1), (2, 0), (3, 2)]"]
    multi_value
  have b: "last [1, - 1, 0, 2, - 1 :: int] = - 1" by blast
  have c: "three_cars \<noteq> []" by (simp add: three_cars_def)
  from single_value a c multi_value b show ?thesis by blast
qed

section \<open>Fuel module: saving and loading the curve\<close>

text \<open>
  A field as \<^verbatim>\<open>csv.reader\<close> returns it with \<^verbatim>\<open>QUOTE_NONNUMERIC\<close>: a field without
  quotes as a float, a quoted field as text. A file is modelled by what the reader makes of
  it: its rows, or a \<^verbatim>\<open>ValueError\<close> (a field without quotes that is no number, bytes
  that are not UTF-8). The files are a function from names; a name can be missing, not
  accessible, or hold a file that can be read only or also written.
\<close>

datatype cell = Num real | Str string

fun is_num :: "cell \<Rightarrow> bool" where
  "is_num (Num x) = True"
| "is_num (Str s) = False"

datatype csv_file = Rows "cell list list" | Malformed

datatype entry = Missing | Denied | ReadOnly csv_file | Writable csv_file

type_synonym store = "string \<Rightarrow> entry"

text \<open>\<^verbatim>\<open>open(name)\<close> for reading and \<^verbatim>\<open>open(name, "w")\<close> with what is written.\<close>

definition open_read :: "store \<Rightarrow> string \<Rightarrow> py_error + csv_file" where
  "open_read files name =
     (case files name of
        Missing \<Rightarrow> Inl FileNotFoundError
      | Denied \<Rightarrow> Inl PermissionError
      | ReadOnly f \<Rightarrow> Inr f
      | Writable f \<Rightarrow> Inr f)"

definition open_write :: "store \<Rightarrow> string \<Rightarrow> csv_file \<Rightarrow> py_error + store" where
  "open_write files name f =
     (case files name of
        Denied \<Rightarrow> Inl PermissionError
      | ReadOnly old \<Rightarrow> Inl PermissionError
      | Missing \<Rightarrow> Inr (files(name := Writable f))
      | Writable old \<Rightarrow> Inr (files(name := Writable f)))"

definition csv_reader :: "csv_file \<Rightarrow> py_error + cell list list" where
  "csv_reader f = (case f of Rows rows \<Rightarrow> Inr rows | Malformed \<Rightarrow> Inl ValueError)"

text \<open>
  What \<^verbatim>\<open>csv.writer\<close> leaves in the file. Numbers are written so that the reader
  returns them unchanged (that is the library's behaviour, taken as given). Text is written
  without quotes, so the reader would not return it as text; the model follows it no
  further and takes such a file as one the reader raises on.
\<close>

definition csv_written :: "cell list list \<Rightarrow> csv_file" where
  "csv_written dataset = (if list_all (list_all is_num) dataset then Rows dataset else Malformed)"

text \<open>\<^verbatim>\<open>xs[i]\<close> with Python's negative indices and its \<^verbatim>\<open>IndexError\<close>.\<close>

definition item :: "'a list \<Rightarrow> int \<Rightarrow> py_error + 'a" where
  "item xs i =
     (if 0 \<le> i \<and> i < int (length xs) then Inr (xs ! nat i)
      else if i < 0 \<and> - int (length xs) \<le> i then Inr (xs ! (length xs - nat (- i)))
      else Inl IndexError)"

text \<open>\<^verbatim>\<open>f"{filepath}{combo}.{extension}"\<close>.\<close>

definition file_name :: "string \<Rightarrow> string \<Rightarrow> string \<Rightarrow> string" where
  "file_name filepath combo extension = filepath @ combo @ ''.'' @ extension"

text \<open>\<^verbatim>\<open>save_delta\<close> (lines 279-284).\<close>

definition save_delta ::
  "cell list list \<Rightarrow> string \<Rightarrow> string \<Rightarrow> string \<Rightarrow> store \<Rightarrow> py_error + store" where
  "save_delta dataset filepath combo extension files =
     (if 10 \<le> length dataset
      then open_write files (file_name filepath combo extension) (csv_written dataset)
      else Inr files)"

text \<open>
  \<^verbatim>\<open>load_delta\<close> (lines 287-305): the body of \<^verbatim>\<open>try\<close>, then the handler, which
  catches \<^verbatim>\<open>FileNotFoundError\<close>, \<^verbatim>\<open>IndexError\<close>, \<^verbatim>\<open>ValueError\<close> and
  \<^verbatim>\<open>TypeError\<close> and nothing else. The function \<^verbatim>\<open>val.delta_list\<close> of the module
  \<^verbatim>\<open>validator\<close> is not part of the sources at hand; it is the parameter
  \<open>delta_list\<close>, any function that returns rows or raises.
\<close>

type_synonym loaded = "cell list list \<times> cell \<times> cell"

definition load_delta_try ::
  "(cell list list \<Rightarrow> py_error + cell list list) \<Rightarrow> string \<Rightarrow> string \<Rightarrow> string \<Rightarrow> store
     \<Rightarrow> py_error + loaded \<times> store" where
  "load_delta_try delta_list filepath combo extension files =
     (case open_read files (file_name filepath combo extension) of
        Inl e \<Rightarrow> Inl e
      | Inr csvfile \<Rightarrow>
     (case csv_reader csvfile of
        Inl e \<Rightarrow> Inl e
      | Inr temp_list \<Rightarrow>
     (case delta_list temp_list of
        Inl e \<Rightarrow> Inl e
      | Inr lastlist \<Rightarrow>
     (case item lastlist (- 1) of
        Inl e \<Rightarrow> Inl e
      | Inr last_row \<Rightarrow>
     (case item last_row 1 of
        Inl e \<Rightarrow> Inl e
      | Inr used \<Rightarrow>
     (case item last_row 2 of
        Inl e \<Rightarrow> Inl e
      | Inr laptime \<Rightarrow>
          if length temp_list \<noteq> length lastlist
          then (case save_delta lastlist filepath combo extension files of
                  Inl e \<Rightarrow> Inl e
                | Inr files' \<Rightarrow> Inr ((lastlist, used, laptime), files'))
          else Inr ((lastlist, used, laptime), files)))))))"

definition caught :: "py_error \<Rightarrow> bool" where
  "caught e \<longleftrightarrow> e = FileNotFoundError \<or> e = IndexError \<or> e = ValueError \<or> e = TypeError"

definition load_default :: loaded where
  "load_default = ([[Num 0, Num 0]], Num 0, Num 0)"

definition load_delta ::
  "(cell list list \<Rightarrow> py_error + cell list list) \<Rightarrow> string \<Rightarrow> string \<Rightarrow> string \<Rightarrow> store
     \<Rightarrow> py_error + loaded \<times> store" where
  "load_delta delta_list filepath combo extension files =
     (case load_delta_try delta_list filepath combo extension files of
        Inl e \<Rightarrow> if caught e then Inr (load_default, files) else Inl e
      | Inr result \<Rightarrow> Inr result)"

text \<open>A directory without files, and a curve of eleven rows with its terminal row.\<close>

definition no_files :: store where
  "no_files = (\<lambda>name. Missing)"


lemma load_delta_try_missing:
  "files (file_name fp c ext) = Missing \<Longrightarrow>
   load_delta_try v fp c ext files = Inl FileNotFoundError"
  by (simp add: load_delta_try_def open_read_def)

lemma load_delta_try_denied:
  "files (file_name fp c ext) = Denied \<Longrightarrow>
   load_delta_try v fp c ext files = Inl PermissionError"
  by (simp add: load_delta_try_def open_read_def)

lemma load_delta_try_malformed:
  "files (file_name fp c ext) = ReadOnly Malformed \<or> files (file_name fp c ext) = Writable Malformed \<Longrightarrow>
   load_delta_try v fp c ext files = Inl ValueError"
  by (auto simp add: load_delta_try_def open_read_def csv_reader_def)

lemma load_delta_try_rows:
  "files (file_name fp c ext) = ReadOnly (Rows rows) \<or> files (file_name fp c ext) = Writable (Rows rows) \<Longrightarrow>
   load_delta_try v fp c ext files =
     (case v rows of
        Inl e \<Rightarrow> Inl e
      | Inr lastlist \<Rightarrow>
     (case item lastlist (- 1) of
        Inl e \<Rightarrow> Inl e
      | Inr last_row \<Rightarrow>
     (case item last_row 1 of
        Inl e \<Rightarrow> Inl e
      | Inr used \<Rightarrow>
     (case item last_row 2 of
        Inl e \<Rightarrow> Inl e
      | Inr laptime \<Rightarrow>
          if length rows \<noteq> length lastlist
          then (case save_delta lastlist fp c ext files of
                  Inl e \<Rightarrow> Inl e
                | Inr files' \<Rightarrow> Inr ((lastlist, used, laptime), files'))
          else Inr ((lastlist, used, laptime), files)))))"
  by (auto simp add: load_delta_try_def open_read_def csv_reader_def)

lemma load_delta_caught:
  "load_delta_try v fp c ext files = Inl e \<Longrightarrow> caught e \<Longrightarrow>
   load_delta v fp c ext files = Inr (load_default, files)"
  by (simp add: load_delta_def)

lemma load_delta_raises: "load_delta v fp c ext files = Inl e \<Longrightarrow> \<not> caught e"
  by (auto simp add: load_delta_def split: sum.splits if_splits)

lemma item_short: "int (length xs) \<le> i \<Longrightarrow> item xs i = Inl IndexError"
  by (simp add: item_def)

lemma item_empty: "item [] i = Inl IndexError"
  by (simp add: item_def)

text \<open>
  Claim C7, as the code has it. A missing file, a file the reader raises on, a validator
  that raises one of the four caught exceptions, and validated rows that are empty or whose
  terminal row has fewer than three fields all give the default dataset (the single zero
  knot, 0 and 0) and leave the files as they are. A file that is not accessible gives a
  \<^verbatim>\<open>PermissionError\<close> that leaves \<^verbatim>\<open>load_delta\<close>; whatever leaves it is none of the
  four caught exceptions.
\<close>

theorem load_failure_fallback:
  "(files (file_name fp c ext) = Missing \<longrightarrow>
      load_delta v fp c ext files = Inr (load_default, files)) \<and>
   (files (file_name fp c ext) = ReadOnly Malformed \<or>
    files (file_name fp c ext) = Writable Malformed \<longrightarrow>
      load_delta v fp c ext files = Inr (load_default, files)) \<and>
   (\<forall>rows e. (files (file_name fp c ext) = ReadOnly (Rows rows) \<or>
               files (file_name fp c ext) = Writable (Rows rows)) \<and>
              v rows = Inl e \<and> caught e \<longrightarrow>
      load_delta v fp c ext files = Inr (load_default, files)) \<and>
   (\<forall>rows lastlist. (files (file_name fp c ext) = ReadOnly (Rows rows) \<or>
                     files (file_name fp c ext) = Writable (Rows rows)) \<and>
              v rows = Inr lastlist \<and> (lastlist = [] \<or> length (last lastlist) < 3) \<longrightarrow>
      load_delta v fp c ext files = Inr (load_default, files)) \<and>
   (files (file_name fp c ext) = Denied \<longrightarrow>
      load_delta v fp c ext files = Inl PermissionError) \<and>
   (\<forall>e. load_delta v fp c ext files = Inl e \<longrightarrow> \<not> caught e)"
proof (intro conjI impI allI)
  assume "files (file_name fp c ext) = Missing"
  with load_delta_try_missing [of files fp c ext v]
  have "load_delta_try v fp c ext files = Inl FileNotFoundError" by simp
  then show "load_delta v fp c ext files = Inr (load_default, files)"
    by (rule load_delta_caught) (simp add: caught_def)
next
  assume "files (file_name fp c ext) = ReadOnly Malformed \<or>
    files (file_name fp c ext) = Writable Malformed"
  with load_delta_try_malformed [of files fp c ext v]
  have "load_delta_try v fp c ext files = Inl ValueError" by simp
  then show "load_delta v fp c ext files = Inr (load_default, files)"
    by (rule load_delta_caught) (simp add: caught_def)
next
  fix rows e
  assume h: "(files (file_name fp c ext) = ReadOnly (Rows rows) \<or>
               files (file_name fp c ext) = Writable (Rows rows)) \<and>
              v rows = Inl e \<and> caught e"
  then have "load_delta_try v fp c ext files = Inl e"
    by (simp add: load_delta_try_rows [of files fp c ext rows v])
  with h show "load_delta v fp c ext files = Inr (load_default, files)"
    by (simp add: load_delta_caught)
next
  fix rows lastlist
  assume h: "(files (file_name fp c ext) = ReadOnly (Rows rows) \<or>
                     files (file_name fp c ext) = Writable (Rows rows)) \<and>
              v rows = Inr lastlist \<and> (lastlist = [] \<or> length (last lastlist) < 3)"
  then have rows: "files (file_name fp c ext) = ReadOnly (Rows rows) \<or>
      files (file_name fp c ext) = Writable (Rows rows)" and v: "v rows = Inr lastlist"
    and short: "lastlist = [] \<or> length (last lastlist) < 3" by simp_all
  have "load_delta_try v fp c ext files = Inl IndexError"
  proof (cases "lastlist = []")
    case True
    then show ?thesis by (simp add: load_delta_try_rows [of files fp c ext rows v, OF rows] v item_empty)
  next
    case False
    then have l: "item lastlist (- 1) = Inr (last lastlist)"
      by (simp add: item_def last_conv_nth Suc_leI)
    from False short have len: "length (last lastlist) < 3" by simp
    show ?thesis
    proof (cases "length (last lastlist) < 2")
      case True
      then have "item (last lastlist) 1 = Inl IndexError" by (simp add: item_short)
      then show ?thesis by (simp add: load_delta_try_rows [of files fp c ext rows v, OF rows] v l)
    next
      case False
      then have a: "item (last lastlist) 1 = Inr (last lastlist ! 1)"
        by (simp add: item_def)
      from len have "item (last lastlist) 2 = Inl IndexError" by (simp add: item_short)
      with a show ?thesis by (simp add: load_delta_try_rows [of files fp c ext rows v, OF rows] v l)
    qed
  qed
  then show "load_delta v fp c ext files = Inr (load_default, files)"
    by (rule load_delta_caught) (simp add: caught_def)
next
  assume "files (file_name fp c ext) = Denied"
  with load_delta_try_denied [of files fp c ext v]
  have "load_delta_try v fp c ext files = Inl PermissionError" by simp
  then show "load_delta v fp c ext files = Inl PermissionError"
    by (simp add: load_delta_def caught_def)
next
  fix e
  assume "load_delta v fp c ext files = Inl e"
  then show "\<not> caught e" by (rule load_delta_raises)
qed

text \<open>Claim C7 fails for a permission error: it is not caught.\<close>

theorem load_failure_counterexample:
  "load_delta Inr ''fuel/'' ''spa'' ''fuel'' (no_files(''fuel/spa.fuel'' := Denied)) =
     Inl PermissionError"
  by (simp add: load_delta_def load_delta_try_def open_read_def file_name_def caught_def)

theorem load_failure_fallback_witness:
  "no_files (file_name ''fuel/'' ''spa'' ''fuel'') = Missing \<and>
   load_delta Inr ''fuel/'' ''spa'' ''fuel'' no_files = Inr (load_default, no_files) \<and>
   (no_files(''fuel/spa.fuel'' := Writable Malformed)) (file_name ''fuel/'' ''spa'' ''fuel'') =
     Writable Malformed \<and>
   load_delta Inr ''fuel/'' ''spa'' ''fuel'' (no_files(''fuel/spa.fuel'' := Writable Malformed)) =
     Inr (load_default, no_files(''fuel/spa.fuel'' := Writable Malformed))"
proof -
  have a: "no_files (file_name ''fuel/'' ''spa'' ''fuel'') = Missing"
    by (simp add: no_files_def)
  have b: "(no_files(''fuel/spa.fuel'' := Writable Malformed)) (file_name ''fuel/'' ''spa'' ''fuel'') =
     Writable Malformed"
    by (simp add: file_name_def)
  from load_failure_fallback [of no_files "''fuel/''" "''spa''" "''fuel''" Inr] a
  have c: "load_delta Inr ''fuel/'' ''spa'' ''fuel'' no_files = Inr (load_default, no_files)"
    by blast
  from load_failure_fallback [of "no_files(''fuel/spa.fuel'' := Writable Malformed)"
      "''fuel/''" "''spa''" "''fuel''" Inr] b
  have d: "load_delta Inr ''fuel/'' ''spa'' ''fuel'' (no_files(''fuel/spa.fuel'' := Writable Malformed)) =
     Inr (load_default, no_files(''fuel/spa.fuel'' := Writable Malformed))"
    by blast
  from a b c d show ?thesis by blast
qed








end
